theory Spec2Isabelle
  imports Main
begin

section \<open>Values, batches and the HTTP response writer\<close>

text \<open>
  An event is a Go \<open>map[string]interface{}\<close> decoded from JSON. Values are JSON values; a
  Go map is an association list with distinct keys.
\<close>

datatype jvalue =
  JNull | JBool bool | JNum int | JStr string | JArr "jvalue list" | JObj "(string \<times> jvalue) list"

type_synonym gomap = "(string \<times> jvalue) list"

text \<open>
  \<open>lj.Batch\<close>: the ordered events of one batch. The gate of a batch is not a field of the
  model: waiting on it is an effect of the task that waits (\<open>AwaitGate\<close> below).
\<close>

datatype batch = NewBatch (Events: "jvalue list")

text \<open>
  What a handler writes to the response: plain bytes, a gzip stream (named by the data it
  decompresses to) or a lumberjack acknowledgment frame carrying a sequence number (the
  keepalive frame is the acknowledgment of length 0).
\<close>

datatype chunk = Bytes string | Gzipped string | LJAck int

text \<open>
  \<open>http.ResponseWriter\<close> of the Go standard library: \<open>header\<close> is the map \<open>Header()\<close>
  returns; the first \<open>WriteHeader\<close> sends the status line with the headers set so far
  (later changes of the map are not sent); \<open>Write\<close> sends the status 200 first when none
  was sent, and appends to the server's buffer; \<open>Flush\<close> hands the buffer to the client.
  \<open>can_flush\<close> says whether the writer is an \<open>http.Flusher\<close>.
\<close>

record response =
  header :: "(string \<times> string) list"
  status :: "nat option"
  sent_header :: "(string \<times> string) list"
  pending :: "chunk list"
  delivered :: "chunk list"
  can_flush :: bool

definition new_response :: "bool \<Rightarrow> response" where
  "new_response fl =
     \<lparr>header = [], status = None, sent_header = [], pending = [], delivered = [],
      can_flush = fl\<rparr>"

definition Header_Add :: "string \<Rightarrow> string \<Rightarrow> response \<Rightarrow> response" where
  "Header_Add k v r = r\<lparr>header := header r @ [(k, v)]\<rparr>"

definition WriteHeader :: "nat \<Rightarrow> response \<Rightarrow> response" where
  "WriteHeader code r =
     (if status r = None then r\<lparr>status := Some code, sent_header := header r\<rparr> else r)"

definition Write :: "chunk \<Rightarrow> response \<Rightarrow> response" where
  "Write b r = (let r' = WriteHeader 200 r in r'\<lparr>pending := pending r' @ [b]\<rparr>)"

definition Flush :: "response \<Rightarrow> response" where
  "Flush r =
     (let r' = WriteHeader 200 r in r'\<lparr>delivered := delivered r' @ pending r', pending := []\<rparr>)"

text \<open>Everything written so far, in order, whether the client has it yet or not.\<close>

definition body :: "response \<Rightarrow> chunk list" where
  "body r = delivered r @ pending r"

text \<open>
  The effects of a handler other than its writes to the response: constructing a codec for
  a protocol version, reading a batch from the request body, enqueuing a batch onto the
  Ingestion Channel (\<open>h.ch <- batch\<close>), waiting on the gate of a batch
  (\<open><-batch.Await()\<close>), and, for the drain task of the ES adapter, a write to the
  response writer.
\<close>

datatype effect =
  MakeCodec string | ReadBatchCall | Enqueue batch | AwaitGate batch | WriteOut string

section \<open>The version-dispatching bulk handler (package http)\<close>

text \<open>
  \<open>internal.ACKWriter\<close> is an interface of a package outside the sources at hand; its
  methods are taken as functions on the response they write to (through the connection
  adapter, \<open>handlerConn.Write\<close> is \<open>resp.Write\<close>), returning the error of the write.
\<close>

record ack_writer =
  HasKeepalive :: bool
  Keepalive :: "int \<Rightarrow> response \<Rightarrow> string option \<times> response"
  ACK :: "int \<Rightarrow> response \<Rightarrow> string option \<times> response"

text \<open>\<open>chunkedACKWriter\<close>: the decorator around an acknowledgment writer \<open>w\<close>; its
  \<open>flusher\<close> is the response itself.\<close>

definition chunkedACKWriter_HasKeepalive :: "ack_writer \<Rightarrow> bool" where
  "chunkedACKWriter_HasKeepalive w = HasKeepalive w"

definition chunkedACKWriter_Keepalive ::
    "ack_writer \<Rightarrow> int \<Rightarrow> response \<Rightarrow> string option \<times> response" where
  "chunkedACKWriter_Keepalive w n r =
     (case Keepalive w n r of
        (err, r') \<Rightarrow> if err \<noteq> None then (err, Flush r') else (err, r'))"

definition chunkedACKWriter_ACK ::
    "ack_writer \<Rightarrow> int \<Rightarrow> response \<Rightarrow> string option \<times> response" where
  "chunkedACKWriter_ACK w n r = ACK w n r"

definition chunkedACKWriter :: "ack_writer \<Rightarrow> ack_writer" where
  "chunkedACKWriter w =
     \<lparr>HasKeepalive = chunkedACKWriter_HasKeepalive w,
      Keepalive = chunkedACKWriter_Keepalive w,
      ACK = chunkedACKWriter_ACK w\<rparr>"

text \<open>
  A request of the version-dispatching server. \<open>Header.Get\<close> gives the empty string for
  an absent header. A codec is what a constructor of the version table returns on
  success: the outcome of \<open>ReadBatch\<close> on this request's body and the acknowledgment
  writer.
\<close>

record http_request =
  Method :: string
  X_Lumberjack_Version :: string
  Body :: string

record codec =
  ReadBatch :: "string + batch"
  ljWriter :: ack_writer

record httpHandler =
  keepalive :: int
  versions :: "string \<Rightarrow> (http_request \<Rightarrow> string + codec) option"

text \<open>
  The state a request works on: its response, the Ingestion Channel (the batches enqueued,
  oldest first; the model follows the runs in which an enqueue finds room) and its
  effects.
\<close>

record hstate =
  resp :: response
  ch :: "batch list"
  log :: "effect list"

text \<open>
  The environment of the wait: what each \<open>select\<close> of the keepalive loop observes, in
  order. A handler whose schedule ends before the gate is ready is still waiting. A
  handler ends by returning, by a panic (its deferred calls run, the server closes the
  connection) or with the process, when the runtime stops it with a fatal error.
\<close>

datatype select = GateReady | TimerFired

datatype outcome = Returned | Waiting | Panicked | Crashed

definition service_unavailable :: "string \<Rightarrow> response \<Rightarrow> response" where
  "service_unavailable err r =
     Write (Bytes err) (Header_Add ''Content-type'' ''text/plain'' (WriteHeader 503 r))"

text \<open>The loop \<open>for !hasACK { select { ... } }\<close>; \<open>None\<close> is the \<open>return\<close> inside it.\<close>

fun keepalive_loop ::
    "ack_writer \<Rightarrow> select list \<Rightarrow> response \<Rightarrow> outcome option \<times> response" where
  "keepalive_loop w [] r = (Some Waiting, r)"
| "keepalive_loop w (GateReady # sched) r = (Some Returned, r)"
| "keepalive_loop w (TimerFired # sched) r =
     (case Keepalive w 0 r of
        (Some err, r') \<Rightarrow> (None, r')
      | (None, r') \<Rightarrow> keepalive_loop w sched r')"

definition http_serveBulk ::
    "httpHandler \<Rightarrow> http_request \<Rightarrow> select list \<Rightarrow> hstate \<Rightarrow> outcome \<times> hstate" where
  "http_serveBulk h requ sched st =
     (let version = X_Lumberjack_Version requ in
      if version = [] then (Returned, st\<lparr>resp := WriteHeader 400 (resp st)\<rparr>)
      else case versions h version of
        None \<Rightarrow> (Returned, st\<lparr>resp := WriteHeader 400 (resp st)\<rparr>)
      | Some handler \<Rightarrow>
         (let st1 = st\<lparr>log := log st @ [MakeCodec version]\<rparr> in
          case handler requ of
            Inl err \<Rightarrow> (Returned, st1\<lparr>resp := service_unavailable err (resp st1)\<rparr>)
          | Inr c \<Rightarrow>
             (let hasKeepalive =
                    (0 < keepalive h \<and> HasKeepalive (ljWriter c) \<and> can_flush (resp st1));
                  w = (if hasKeepalive then chunkedACKWriter (ljWriter c) else ljWriter c);
                  st2 = st1\<lparr>log := log st1 @ [ReadBatchCall]\<rparr>
              in case ReadBatch c of
                Inl err \<Rightarrow> (Returned, st2\<lparr>resp := service_unavailable err (resp st2)\<rparr>)
              | Inr batch \<Rightarrow>
                 (let N = int (length (Events batch));
                      st3 = st2\<lparr>ch := ch st2 @ [batch], log := log st2 @ [Enqueue batch]\<rparr>;
                      r3 = Header_Add ''X-Lumberjack-Version'' version
                             (Header_Add ''Content-Type'' ''application/lumberjack'' (resp st3));
                      st4 = st3\<lparr>resp := r3, log := log st3 @ [AwaitGate batch]\<rparr>
                  in if hasKeepalive then
                       (case keepalive_loop w sched r3 of
                          (None, r4) \<Rightarrow> (Returned, st4\<lparr>resp := r4\<rparr>)
                        | (Some Waiting, r4) \<Rightarrow> (Waiting, st4\<lparr>resp := r4\<rparr>)
                        | (Some Returned, r4) \<Rightarrow>
                            (Returned, st4\<lparr>resp := snd (ACK w N r4)\<rparr>))
                     else if GateReady \<in> set sched then
                       (Returned, st4\<lparr>resp := snd (ACK w N r3)\<rparr>)
                     else (Waiting, st4)))))"

definition http_ServeHTTP ::
    "httpHandler \<Rightarrow> http_request \<Rightarrow> select list \<Rightarrow> hstate \<Rightarrow> outcome \<times> hstate" where
  "http_ServeHTTP h requ sched st =
     (if Method requ = ''HEAD'' then (Returned, st\<lparr>resp := WriteHeader 200 (resp st)\<rparr>)
      else if Method requ = ''POST'' then http_serveBulk h requ sched st
      else (Returned, st\<lparr>resp := WriteHeader 405 (resp st)\<rparr>))"

section \<open>The ES-bulk compatibility adapter (package es)\<close>

text \<open>
  The JSON decoder of the standard library is not part of the sources; the request body
  is given as the decoder sees it, one token for each value of the stream: an object, the
  value \<open>null\<close> (which decodes into a nil map without an error), anything that fails to
  decode into a map (with the error), or a stray closing bracket (where \<open>More\<close> is
  false although input remains). At the end of the input \<open>Decode\<close> returns \<open>EOF\<close>.
\<close>

datatype tok = TObj gomap | TNull | TBad string | TClose

fun More :: "tok list \<Rightarrow> bool" where
  "More [] = False"
| "More (TClose # ts) = False"
| "More (t # ts) = True"

fun Decode :: "tok list \<Rightarrow> string + (gomap option \<times> tok list)" where
  "Decode [] = Inl ''EOF''"
| "Decode (TObj m # ts) = Inr (Some m, ts)"
| "Decode (TNull # ts) = Inr (None, ts)"
| "Decode (TBad err # ts) = Inl err"
| "Decode (TClose # ts) = Inl ''invalid character''"

text \<open>\<open>m[k] = v\<close> on a Go map.\<close>

fun map_assign :: "string \<Rightarrow> jvalue \<Rightarrow> gomap \<Rightarrow> gomap" where
  "map_assign k v [] = [(k, v)]"
| "map_assign k v ((k', v') # m) =
     (if k = k' then (k, v) # m else (k', v') # map_assign k v m)"

text \<open>A map stored in an \<open>interface{}\<close>; the nil map is the value that encodes as \<open>null\<close>.\<close>

definition map_value :: "gomap option \<Rightarrow> jvalue" where
  "map_value m = (case m of None \<Rightarrow> JNull | Some kv \<Rightarrow> JObj kv)"

text \<open>
  The capacity of a slice after \<open>append\<close> of one element: unchanged while there is room.
  The loop below only ever appends to a full slice when the capacity is 0 (threshold 0),
  where the runtime allocates room for one element.
\<close>

definition append_cap :: "nat \<Rightarrow> nat \<Rightarrow> nat" where
  "append_cap len cap = (if len < cap then cap else max (2 * cap) (len + 1))"

text \<open>\<open>strings.Contains\<close>.\<close>

fun has_prefix :: "string \<Rightarrow> string \<Rightarrow> bool" where
  "has_prefix s [] = True"
| "has_prefix [] (p # ps) = False"
| "has_prefix (c # s) (p # ps) = (c = p \<and> has_prefix s ps)"

fun Contains :: "string \<Rightarrow> string \<Rightarrow> bool" where
  "Contains [] sub = (sub = [])"
| "Contains (c # s) sub = (has_prefix (c # s) sub \<or> Contains s sub)"

record es_request =
  es_Method :: string
  Accept_Encoding :: string
  Content_Encoding :: string
  gzip_NewReader :: "string option"
  es_Body :: "tok list"

record es_handler =
  silent :: bool
  split :: int

text \<open>The local type \<open>info\<close> of \<open>serveBulk\<close>: a group, as handed to the drain task.\<close>

record info =
  info_batch :: batch
  info_meta :: "gomap option list"

text \<open>
  The state of an ES-bulk request: the response; the input of the gzip writer when the
  client accepts gzip (\<open>writer\<close> is then the gzip writer, which hands its stream to the
  response when it is closed); the Ingestion Channel; whether the body has been read
  from; the groups sent through the completion pipeline \<open>batches\<close>; the effects of
  the drain task, in the order it performs them; and, of the runtime the server runs on,
  the bound \<open>maxAlloc\<close> on the size of an object (2^48 bytes on 64-bit Linux) and the
  size in bytes of the largest object it has memory for while the request runs.
\<close>

record es_state =
  es_resp :: response
  gz :: "string option"
  es_ch :: "batch list"
  body_read :: bool
  sent :: "info list"
  drain_log :: "effect list"
  maxAlloc :: int
  mem_avail :: int

definition writer_Write :: "string \<Rightarrow> es_state \<Rightarrow> es_state" where
  "writer_Write s st =
     (case gz st of
        None \<Rightarrow> st\<lparr>es_resp := Write (Bytes s) (es_resp st)\<rparr>
      | Some z \<Rightarrow> st\<lparr>gz := Some (z @ s)\<rparr>)"

definition gz_Close :: "es_state \<Rightarrow> es_state" where
  "gz_Close st =
     (case gz st of
        None \<Rightarrow> st
      | Some z \<Rightarrow> st\<lparr>es_resp := Write (Gzipped z) (es_resp st), gz := None\<rparr>)"

definition drain_Write :: "string \<Rightarrow> es_state \<Rightarrow> es_state" where
  "drain_Write s st = (writer_Write s st)\<lparr>drain_log := drain_log st @ [WriteOut s]\<rparr>"

definition first_entry :: string where
  "first_entry = ''{\"created\":{\"status\": 200}}''"

definition next_entry :: string where
  "next_entry = '',{\"created\":{\"status\": 200}}''"

text \<open>
  The decode loop of \<open>serveBulk\<close>. Its state is the working group (\<open>events\<close> with the
  capacity of the slice, \<open>metas\<close>) and the groups sent to the pipeline so far. It ends
  when \<open>More\<close> is false, on a decode error, or by the runtime panic of the assignment
  \<open>evt["@metadata"] = meta\<close> when the source line decoded into a nil map.
\<close>

datatype loop_exit = NoMore | DecodeError string | NilMapPanic

record loop_state =
  events :: "jvalue list"
  events_cap :: nat
  metas :: "gomap option list"
  batches :: "info list"

text \<open>
  The end of an iteration, once both lines have decoded (\<open>m\<close> is the non-nil source map):
  store the metadata in the event, append both to the working group and, when the group
  has filled its slice, send it to the pipeline and start a fresh group.
\<close>

definition accept_pair :: "nat \<Rightarrow> gomap option \<Rightarrow> gomap \<Rightarrow> loop_state \<Rightarrow> loop_state" where
  "accept_pair n meta m s =
     (let evt = map_assign ''@metadata'' (map_value meta) m;
          cap' = append_cap (length (events s)) (events_cap s);
          events' = events s @ [JObj evt];
          metas' = metas s @ [meta]
      in if length events' = cap' then
           \<lparr>events = [], events_cap = n, metas = [],
            batches = batches s @ [\<lparr>info_batch = NewBatch events', info_meta = metas'\<rparr>]\<rparr>
         else s\<lparr>events := events', events_cap := cap', metas := metas'\<rparr>)"

function decode_loop :: "nat \<Rightarrow> tok list \<Rightarrow> loop_state \<Rightarrow> loop_exit \<times> loop_state" where
  "decode_loop n ts s =
     (if \<not> More ts then (NoMore, s)
      else case Decode ts of
        Inl err \<Rightarrow> (DecodeError err, s)
      | Inr (meta, ts1) \<Rightarrow>
         (case Decode ts1 of
            Inl err \<Rightarrow> (DecodeError err, s)
          | Inr (evt, ts2) \<Rightarrow>
             (case evt of
                None \<Rightarrow> (NilMapPanic, s)
              | Some m \<Rightarrow> decode_loop n ts2 (accept_pair n meta m s))))"
  by pat_completeness auto
termination
  by (relation "measure (\<lambda>(n, ts, s). length ts)") (auto elim!: Decode.elims)

declare decode_loop.simps [simp del]

text \<open>
  \<open>make([]T, 0, cap)\<close> of the Go runtime on a 64-bit platform, for an element size of
  \<open>et\<close> bytes: it panics (\<open>makeslice: cap out of range\<close>) when the capacity is negative
  or the size in bytes overflows a machine word or exceeds \<open>maxAlloc\<close>, and the runtime
  stops the process (\<open>out of memory\<close>) when it has no memory for a size within the
  bound. A size the runtime had memory for before the loop is taken to be available for
  the fresh slices of the same capacity that the loop makes.
\<close>

datatype alloc = Allocated | CapOutOfRange | OutOfMemory

definition makeslice :: "int \<Rightarrow> int \<Rightarrow> int \<Rightarrow> int \<Rightarrow> alloc" where
  "makeslice maxA avail et cap =
     (if cap < 0 \<or> 2 ^ 64 \<le> et * cap \<or> maxA < et * cap then CapOutOfRange
      else if avail < et * cap then OutOfMemory
      else Allocated)"

text \<open>The state before the loop: two empty slices of capacity \<open>h.split\<close>, nothing sent.\<close>

definition loop_init :: "nat \<Rightarrow> loop_state" where
  "loop_init n = \<lparr>events = [], events_cap = n, metas = [], batches = []\<rparr>"

text \<open>The loop \<open>for ; i < len(info.meta); i++\<close> of the drain task.\<close>

function write_entries :: "nat \<Rightarrow> nat \<Rightarrow> es_state \<Rightarrow> es_state" where
  "write_entries i n st =
     (if i < n then write_entries (i + 1) n (drain_Write next_entry st) else st)"
  by pat_completeness auto
termination
  by (relation "measure (\<lambda>(i, n, st). n - i)") auto

declare write_entries.simps [simp del]

text \<open>
  One iteration of \<open>for info := range batches\<close> in the drain task, on the flag \<open>first\<close>
  and the state. The model follows the run in which every wait on a gate returns.
\<close>

definition drain_group :: "bool \<Rightarrow> info \<Rightarrow> bool \<times> es_state \<Rightarrow> bool \<times> es_state" where
  "drain_group sil g fs =
     (case fs of (first, st) \<Rightarrow>
       (let batch = info_batch g;
            st1 = st\<lparr>es_ch := es_ch st @ [batch], drain_log := drain_log st @ [Enqueue batch]\<rparr>
        in if sil then (first, st1)
           else if length (info_meta g) = 0 then (first, st1)
           else
             (let st2 = (if first then drain_Write first_entry st1 else st1);
                  i = (if first then 1 else 0);
                  st3 = write_entries i (length (info_meta g)) st2
              in (False, st3\<lparr>drain_log := drain_log st3 @ [AwaitGate batch]\<rparr>))))"

fun drain :: "bool \<Rightarrow> info list \<Rightarrow> bool \<times> es_state \<Rightarrow> bool \<times> es_state" where
  "drain sil [] fs = fs"
| "drain sil (g # gs) fs = drain sil gs (drain_group sil g fs)"

text \<open>
  \<open>serveBulk\<close> of the ES adapter. The two slices are made before the response is
  started: \<open>metas\<close> of maps (8 bytes each), then \<open>events\<close> of interface values (16 bytes
  each); a threshold that is negative or too large makes \<open>make\<close> panic there. The
  deferred \<open>gz.Close()\<close> runs on every way out but the fatal error. After the panic
  of the decode loop the drain task still works on the groups it was sent, and no
  terminator is written.

  Between the opening of the items array and the terminator only the drain task writes to
  the response, and the handler writes the terminator after \<open>wg.Wait()\<close>; the drain task
  alone enqueues. So neither the response nor the Ingestion Channel depends on how the two
  tasks interleave, and the model runs the drain task over the groups in the order in
  which they were sent.
\<close>

definition es_serveBulk :: "es_handler \<Rightarrow> es_request \<Rightarrow> es_state \<Rightarrow> outcome \<times> es_state" where
  "es_serveBulk h requ st =
     (let st1 = (if Contains (Accept_Encoding requ) ''gzip''
                 then st\<lparr>gz := Some [],
                         es_resp := Header_Add ''Content-Encoding'' ''gzip'' (es_resp st)\<rparr>
                 else st\<lparr>gz := None\<rparr>);
          st2 = (if Content_Encoding requ = ''gzip'' then st1\<lparr>body_read := True\<rparr> else st1)
      in case (if Content_Encoding requ = ''gzip'' then gzip_NewReader requ else None) of
        Some err \<Rightarrow>
          (Returned,
           gz_Close (writer_Write err
             (st2\<lparr>es_resp :=
                Header_Add ''Content-Type'' ''text/plain'' (WriteHeader 400 (es_resp st2))\<rparr>)))
      | None \<Rightarrow>
          case makeslice (maxAlloc st) (mem_avail st) 8 (split h) of
            CapOutOfRange \<Rightarrow> (Panicked, gz_Close st2)
          | OutOfMemory \<Rightarrow> (Crashed, st2)
          | Allocated \<Rightarrow>
          case makeslice (maxAlloc st) (mem_avail st) 16 (split h) of
            CapOutOfRange \<Rightarrow> (Panicked, gz_Close st2)
          | OutOfMemory \<Rightarrow> (Crashed, st2)
          | Allocated \<Rightarrow>
            (let st3 = writer_Write ''{\"items\": [''
                         (st2\<lparr>es_resp :=
                            WriteHeader 200
                              (Header_Add ''Content-Type'' ''application/json'' (es_resp st2))\<rparr>);
                 st4 = st3\<lparr>body_read := True\<rparr>
             in case decode_loop (nat (split h)) (es_Body requ) (loop_init (nat (split h))) of
               (NilMapPanic, s) \<Rightarrow>
                 (Panicked,
                  gz_Close (snd (drain (silent h) (batches s) (True, st4\<lparr>sent := batches s\<rparr>))))
             | (ex, s) \<Rightarrow>
                 (let groups =
                        (if length (events s) > 0
                         then batches s @
                                [\<lparr>info_batch = NewBatch (events s), info_meta = metas s\<rparr>]
                         else batches s);
                      st5 = snd (drain (silent h) groups (True, st4\<lparr>sent := groups\<rparr>))
                  in (Returned, gz_Close (writer_Write '']}'' st5)))))"

definition es_ServeHTTP :: "es_handler \<Rightarrow> es_request \<Rightarrow> es_state \<Rightarrow> outcome \<times> es_state" where
  "es_ServeHTTP h requ st =
     (if es_Method requ = ''HEAD'' then (Returned, st\<lparr>es_resp := WriteHeader 200 (es_resp st)\<rparr>)
      else if es_Method requ = ''POST'' then es_serveBulk h requ st
      else (Returned, st\<lparr>es_resp := WriteHeader 405 (es_resp st)\<rparr>))"

definition new_es_state :: "batch list \<Rightarrow> es_state" where
  "new_es_state c =
     \<lparr>es_resp = new_response True, gz = None, es_ch = c, body_read = False, sent = [],
      drain_log = [], maxAlloc = 2 ^ 48, mem_avail = 2 ^ 32\<rparr>"

text \<open>The data a response carries, content encoding removed.\<close>

fun chunk_data :: "chunk \<Rightarrow> string" where
  "chunk_data (Bytes s) = s"
| "chunk_data (Gzipped s) = s"
| "chunk_data (LJAck n) = []"

definition payload :: "response \<Rightarrow> string" where
  "payload r = concat (map chunk_data (body r))"

section \<open>The HTTP push client (package client/v2)\<close>

record http_response =
  StatusCode :: int
  Status :: string
  resp_Body :: string

text \<open>
  An \<open>http.Request\<close> as \<open>Push\<close> builds it. \<open>SetBasicAuth\<close> is kept as the pair it was
  given (it sets the \<open>Authorization\<close> header). The cancel channel of the request is left
  out.
\<close>

record request =
  requ_Method :: string
  requ_URL :: string
  requ_BasicAuth :: "(string \<times> string) option"
  requ_Header :: "(string \<times> string) list"
  requ_Body :: string

text \<open>\<open>httpConn\<close>; \<open>canceler\<close> is the number of signals in the channel.\<close>

record 't httpConn =
  http_Transport :: 't
  http_Timeout :: int
  url :: string
  username :: string
  password :: string
  buf :: string
  conn_resp :: "http_response option"
  canceler :: nat




record ('t, 'c) HttpClient =
  hc_conn :: "'t httpConn"
  hc_client :: 'c

definition NewHTTPClient ::
    "('o list \<Rightarrow> string + int) \<Rightarrow> ('t httpConn \<Rightarrow> 'o list \<Rightarrow> string + 'c) \<Rightarrow>
     string \<Rightarrow> string \<Rightarrow> string \<Rightarrow> 't \<Rightarrow> 'o list \<Rightarrow> string + ('t, 'c) HttpClient" where
  "NewHTTPClient applyOptions NewWithConn url' username' password' tr opts =
     (case applyOptions opts of
        Inl err \<Rightarrow> Inl err
      | Inr timeout \<Rightarrow>
         (let conn = \<lparr>http_Transport = tr, http_Timeout = timeout, url = url',
                      username = [], password = [], buf = [], conn_resp = None,
                      canceler = 0\<rparr>
          in case NewWithConn conn opts of
            Inl err \<Rightarrow> Inl err
          | Inr client \<Rightarrow> Inr \<lparr>hc_conn = conn, hc_client = client\<rparr>))"



text \<open>The request \<open>Push\<close> sends, once \<open>http.NewRequest\<close> has accepted the URL.\<close>

definition Push_request :: "'t httpConn \<Rightarrow> request" where
  "Push_request c =
     (let requ = \<lparr>requ_Method = ''POST'', requ_URL = url c, requ_BasicAuth = None,
                  requ_Header = [], requ_Body = buf c\<rparr>;
          requ1 = (if username c \<noteq> [] \<and> password c \<noteq> []
                   then requ\<lparr>requ_BasicAuth := Some (username c, password c)\<rparr> else requ)
      in requ1\<lparr>requ_Header := requ_Header requ1 @
                  [(''Content-Type'', ''application/lumberjack''),
                   (''Accept'', ''application/lumberjack''),
                   (''X-Lumberjack-Version'', ''2.0'')]\<rparr>)"







section \<open>Notions the claims are stated with\<close>

text \<open>
  The data written to \<open>writer\<close> so far: what the response holds, followed by what the
  gzip writer still holds.
\<close>

definition written :: "es_state \<Rightarrow> string" where
  "written st = payload (es_resp st) @ (case gz st of None \<Rightarrow> [] | Some z \<Rightarrow> z)"

text \<open>
  The text of \<open>n\<close> status entries: every entry but the first of the response is prefixed
  by a comma. \<open>first\<close> says whether the next entry is the first of the response.
\<close>

definition items :: "bool \<Rightarrow> nat \<Rightarrow> string" where
  "items first n =
     (if n = 0 then []
      else if first then first_entry @ concat (replicate (n - 1) next_entry)
      else concat (replicate n next_entry))"

text \<open>
  The items of a response with \<open>n\<close> status entries, as the client reads them: the entries
  separated by commas.
\<close>

fun status_entries :: "nat \<Rightarrow> string" where
  "status_entries 0 = []"
| "status_entries (Suc 0) = ''{\"created\":{\"status\": 200}}''"
| "status_entries (Suc (Suc n)) =
     ''{\"created\":{\"status\": 200}}'' @ '','' @ status_entries (Suc n)"

text \<open>
  The metadata/source pairs a token stream offers before the decode loop ends: the pairs
  whose metadata line decodes (to an object or to \<open>null\<close>) and whose source line decodes
  to an object, up to the first line that does not. \<open>mk_event\<close> is the event the loop
  makes of a pair.
\<close>

fun accepted :: "tok list \<Rightarrow> (gomap option \<times> gomap) list" where
  "accepted (TObj m # TObj e # ts) = (Some m, e) # accepted ts"
| "accepted (TNull # TObj e # ts) = (None, e) # accepted ts"
| "accepted ts = []"

definition mk_event :: "gomap option \<times> gomap \<Rightarrow> jvalue" where
  "mk_event p = JObj (map_assign ''@metadata'' (map_value (fst p)) (snd p))"

text \<open>A body of well-formed pairs: each line an object.\<close>

definition pair_tokens :: "(gomap \<times> gomap) list \<Rightarrow> tok list" where
  "pair_tokens ps = concat (map (\<lambda>p. [TObj (fst p), TObj (snd p)]) ps)"

text \<open>All events and all metadata entries of a loop state, sent or still in the group.\<close>

definition flat_events :: "loop_state \<Rightarrow> jvalue list" where
  "flat_events s = concat (map (\<lambda>g. Events (info_batch g)) (batches s)) @ events s"

definition flat_metas :: "loop_state \<Rightarrow> gomap option list" where
  "flat_metas s = concat (map info_meta (batches s)) @ metas s"

text \<open>
  The invariant of the loop for a threshold \<open>n\<close>: the slice has capacity \<open>n\<close>, the working
  group is not full, and every group sent holds exactly \<open>n\<close> events.
\<close>

definition full_groups :: "nat \<Rightarrow> loop_state \<Rightarrow> bool" where
  "full_groups n s =
     (events_cap s = n \<and> length (events s) < n
      \<and> list_all (\<lambda>g. length (Events (info_batch g)) = n) (batches s))"

text \<open>The groups the request has sent once the loop is over: the residual group last.\<close>

definition final_groups :: "loop_state \<Rightarrow> info list" where
  "final_groups s =
     (if length (events s) > 0
      then batches s @ [\<lparr>info_batch = NewBatch (events s), info_meta = metas s\<rparr>]
      else batches s)"

text \<open>Metadata and events of the working group are appended together.\<close>

definition paired :: "loop_state \<Rightarrow> bool" where
  "paired s = (length (metas s) = length (events s))"

text \<open>
  A request that gets as far as the decode loop: a POST whose body the gzip reader (when
  one is asked for) accepts, on a handler for whose threshold the runtime makes the two
  slices. \<open>loop_result\<close> is what the decode loop returns for it.
\<close>

definition reaches_loop :: "es_handler \<Rightarrow> es_request \<Rightarrow> es_state \<Rightarrow> bool" where
  "reaches_loop h requ st =
     (es_Method requ = ''POST''
      \<and> (if Content_Encoding requ = ''gzip'' then gzip_NewReader requ = None else True)
      \<and> makeslice (maxAlloc st) (mem_avail st) 8 (split h) = Allocated
      \<and> makeslice (maxAlloc st) (mem_avail st) 16 (split h) = Allocated)"

definition loop_result :: "es_handler \<Rightarrow> es_request \<Rightarrow> loop_exit \<times> loop_state" where
  "loop_result h requ = decode_loop (nat (split h)) (es_Body requ) (loop_init (nat (split h)))"

text \<open>The status line with code \<open>c\<close> has been sent.\<close>

definition started :: "nat \<Rightarrow> es_state \<Rightarrow> bool" where
  "started c st = (status (es_resp st) = Some c)"

subsection \<open>JSON texts\<close>

text \<open>
  The grammar of JSON (RFC 8259), for texts without escapes in strings and with
  non-negative integers as the only numbers: enough to read the responses of the adapter.
\<close>

definition is_ws :: "char \<Rightarrow> bool" where
  "is_ws c = (c = CHR '' '' \<or> c = CHR 0x09 \<or> c = CHR 0x0A \<or> c = CHR 0x0D)"

definition is_digit :: "char \<Rightarrow> bool" where
  "is_digit c = (c \<in> set ''0123456789'')"

definition json_number :: "string \<Rightarrow> bool" where
  "json_number s = (s \<noteq> [] \<and> list_all is_digit s \<and> (length s = 1 \<or> hd s \<noteq> CHR ''0''))"

definition json_string :: "string \<Rightarrow> bool" where
  "json_string s =
     (2 \<le> length s \<and> hd s = CHR 0x22 \<and> last s = CHR 0x22
      \<and> list_all (\<lambda>c. c \<noteq> CHR 0x22 \<and> c \<noteq> CHR 0x5C \<and> (32::nat) \<le> of_char c)
           (butlast (tl s)))"

inductive json_value :: "string \<Rightarrow> bool"
  and json_element :: "string \<Rightarrow> bool"
  and json_elements :: "string \<Rightarrow> bool"
  and json_member :: "string \<Rightarrow> bool"
  and json_members :: "string \<Rightarrow> bool" where
  number: "json_number s \<Longrightarrow> json_value s"
| string: "json_string s \<Longrightarrow> json_value s"
| true: "json_value ''true''"
| false: "json_value ''false''"
| null: "json_value ''null''"
| empty_object: "list_all is_ws w \<Longrightarrow> json_value (''{'' @ w @ ''}'')"
| object: "json_members ms \<Longrightarrow> json_value (''{'' @ ms @ ''}'')"
| empty_array: "list_all is_ws w \<Longrightarrow> json_value (''['' @ w @ '']'')"
| array: "json_elements es \<Longrightarrow> json_value (''['' @ es @ '']'')"
| element: "list_all is_ws a \<Longrightarrow> json_value v \<Longrightarrow> list_all is_ws b \<Longrightarrow>
            json_element (a @ v @ b)"
| one_element: "json_element e \<Longrightarrow> json_elements e"
| more_elements: "json_element e \<Longrightarrow> json_elements es \<Longrightarrow> json_elements (e @ '','' @ es)"
| member: "list_all is_ws a \<Longrightarrow> json_string k \<Longrightarrow> list_all is_ws b \<Longrightarrow> json_element v \<Longrightarrow>
           json_member (a @ k @ b @ '':'' @ v)"
| one_member: "json_member m \<Longrightarrow> json_members m"
| more_members: "json_member m \<Longrightarrow> json_members ms \<Longrightarrow> json_members (m @ '','' @ ms)"

section \<open>Sample inputs\<close>

text \<open>
  Modelled from the spec: the acknowledgment writer of protocol version 2.0 (package
  \<open>server/v2\<close>, which the sources do not hold). It supports keepalive; a keepalive is an
  acknowledgment frame of length 0, the final acknowledgment carries the event count;
  both are written to the response and the write succeeds.
\<close>

definition lj_writer :: ack_writer where
  "lj_writer =
     \<lparr>HasKeepalive = True,
      Keepalive = (\<lambda>n r. (None, Write (LJAck n) r)),
      ACK = (\<lambda>n r. (None, Write (LJAck n) r))\<rparr>"

text \<open>The version table \<open>newServer\<close> builds: one constructor, for version 2.0.\<close>

definition newServer_versions ::
    "(http_request \<Rightarrow> string + codec) \<Rightarrow> string \<Rightarrow> (http_request \<Rightarrow> string + codec) option" where
  "newServer_versions mk = (\<lambda>v. if v = ''2.0'' then Some mk else None)"

text \<open>A constructor whose reader yields one batch of one event, the body as a string.\<close>

definition sample_codec :: "http_request \<Rightarrow> string + codec" where
  "sample_codec requ =
     Inr \<lparr>ReadBatch = Inr (NewBatch [JStr (Body requ)]), ljWriter = lj_writer\<rparr>"

definition sample_handler :: httpHandler where
  "sample_handler = \<lparr>keepalive = 100, versions = newServer_versions sample_codec\<rparr>"

definition sample_post :: http_request where
  "sample_post = \<lparr>Method = ''POST'', X_Lumberjack_Version = ''2.0'', Body = ''e''\<rparr>"

definition new_hstate :: "batch list \<Rightarrow> hstate" where
  "new_hstate c = \<lparr>resp = new_response True, ch = c, log = []\<rparr>"

definition sample_es_handler :: es_handler where
  "sample_es_handler = \<lparr>silent = False, split = 2\<rparr>"

text \<open>An ES-bulk request of two metadata/source pairs.\<close>

definition two_pairs :: es_request where
  "two_pairs =
     \<lparr>es_Method = ''POST'', Accept_Encoding = [], Content_Encoding = [],
      gzip_NewReader = None,
      es_Body = [TObj [(''index'', JObj [])], TObj [(''message'', JStr ''a'')],
                 TObj [(''index'', JObj [])], TObj [(''message'', JStr ''b'')]]\<rparr>"

text \<open>The one group the two pairs form under the threshold 2.\<close>

definition batch_ab :: batch where
  "batch_ab =
     NewBatch [JObj [(''message'', JStr ''a''), (''@metadata'', JObj [(''index'', JObj [])])],
               JObj [(''message'', JStr ''b''), (''@metadata'', JObj [(''index'', JObj [])])]]"

text \<open>A silent handler with threshold 1, and the two groups the two pairs form under it.\<close>

definition silent_handler :: es_handler where
  "silent_handler = \<lparr>silent = True, split = 1\<rparr>"

definition batch_a :: batch where
  "batch_a =
     NewBatch [JObj [(''message'', JStr ''a''), (''@metadata'', JObj [(''index'', JObj [])])]]"

definition batch_b :: batch where
  "batch_b =
     NewBatch [JObj [(''message'', JStr ''b''), (''@metadata'', JObj [(''index'', JObj [])])]]"

text \<open>Five well-formed pairs, and the request that carries them.\<close>

definition five :: "(gomap \<times> gomap) list" where
  "five = map (\<lambda>i. ([(''index'', JObj [])], [(''offset'', JNum i)])) [1, 2, 3, 4, 5]"

definition five_pairs :: es_request where
  "five_pairs =
     \<lparr>es_Method = ''POST'', Accept_Encoding = ''gzip, deflate'', Content_Encoding = [],
      gzip_NewReader = None, es_Body = pair_tokens five\<rparr>"

text \<open>A body whose third line is malformed: one pair is accepted before the error.\<close>

definition broken_body :: es_request where
  "broken_body =
     \<lparr>es_Method = ''POST'', Accept_Encoding = [], Content_Encoding = [],
      gzip_NewReader = None,
      es_Body = [TObj [(''index'', JObj [])], TObj [(''message'', JStr ''a'')],
                 TBad ''invalid character'', TObj [(''message'', JStr ''b'')]]\<rparr>"

text \<open>
  A body in which a pair is followed by a pair whose source line is \<open>null\<close>.
\<close>

definition null_source :: es_request where
  "null_source =
     \<lparr>es_Method = ''POST'', Accept_Encoding = [], Content_Encoding = [],
      gzip_NewReader = None,
      es_Body = [TObj [(''index'', JObj [])], TObj [(''message'', JStr ''a'')],
                 TObj [(''index'', JObj [])], TNull]\<rparr>"

text \<open>A handler whose threshold is 2^62.\<close>

definition huge_handler :: es_handler where
  "huge_handler = \<lparr>silent = False, split = 2 ^ 62\<rparr>"





definition sample_applyOptions :: "nat list \<Rightarrow> string + int" where
  "sample_applyOptions opts = Inr 30"

definition sample_NewWithConn :: "unit httpConn \<Rightarrow> nat list \<Rightarrow> string + nat" where
  "sample_NewWithConn c opts = Inr 0"

section \<open>Facts about the response writer\<close>

lemma payload_Write [simp]: "payload (Write b r) = payload r @ chunk_data b"
  by (simp add: payload_def body_def Write_def WriteHeader_def Let_def)

lemma payload_WriteHeader [simp]: "payload (WriteHeader c r) = payload r"
  by (simp add: payload_def body_def WriteHeader_def)

lemma payload_Header_Add [simp]: "payload (Header_Add k v r) = payload r"
  by (simp add: payload_def body_def Header_Add_def)

lemma status_Header_Add [simp]: "status (Header_Add k v r) = status r"
  by (simp add: Header_Add_def)

lemma status_Write: "status (Write b r) = (if status r = None then Some 200 else status r)"
  by (simp add: Write_def WriteHeader_def Let_def)

lemma status_WriteHeader:
  "status (WriteHeader c r) = (if status r = None then Some c else status r)"
  by (simp add: WriteHeader_def)

section \<open>The version-dispatching bulk handler: claims\<close>

text \<open>
  C1 (the code departs from it). The claim: whenever the keepalive write of the underlying
  acknowledgment writer succeeds, the decorator flushes the response before it returns.
  The decorator tests \<open>err != nil\<close>: for every writer it flushes after a failed write and
  only then. Evaluated on a writer whose keepalive write succeeds, the frame stays in the
  server's buffer and nothing is delivered; in a request whose timer fires three times before the gate is ready, the
  three keepalive frames and the final acknowledgment are all still pending when the
  handler returns.
\<close>

theorem C1_keepalive_not_flushed:
  "chunkedACKWriter_Keepalive w n r =
     (case Keepalive w n r of
        (None, r') \<Rightarrow> (None, r')
      | (Some err, r') \<Rightarrow> (Some err, Flush r'))
   \<and> chunkedACKWriter_Keepalive lj_writer 0 (new_response True) =
       (None, (new_response True)\<lparr>status := Some 200, pending := [LJAck 0]\<rparr>)
   \<and> delivered (snd (chunkedACKWriter_Keepalive lj_writer 0 (new_response True))) = []
   \<and> http_ServeHTTP sample_handler sample_post
        [TimerFired, TimerFired, TimerFired, GateReady] (new_hstate []) =
      (Returned,
       \<lparr>resp = \<lparr>header = [(''Content-Type'', ''application/lumberjack''),
                          (''X-Lumberjack-Version'', ''2.0'')],
                status = Some 200,
                sent_header = [(''Content-Type'', ''application/lumberjack''),
                               (''X-Lumberjack-Version'', ''2.0'')],
                pending = [LJAck 0, LJAck 0, LJAck 0, LJAck 1],
                delivered = [],
                can_flush = True\<rparr>,
        ch = [NewBatch [JStr ''e'']],
        log = [MakeCodec ''2.0'', ReadBatchCall, Enqueue (NewBatch [JStr ''e'']),
               AwaitGate (NewBatch [JStr ''e''])]\<rparr>)"
proof -
  have general: "chunkedACKWriter_Keepalive w n r =
     (case Keepalive w n r of
        (None, r') \<Rightarrow> (None, r')
      | (Some err, r') \<Rightarrow> (Some err, Flush r'))"
    by (simp add: chunkedACKWriter_Keepalive_def split: prod.splits option.splits)
  have one: "chunkedACKWriter_Keepalive lj_writer 0 (new_response True) =
       (None, (new_response True)\<lparr>status := Some 200, pending := [LJAck 0]\<rparr>)"
    by (simp add: chunkedACKWriter_Keepalive_def lj_writer_def new_response_def Write_def
        WriteHeader_def Let_def)
  have request: "http_ServeHTTP sample_handler sample_post
        [TimerFired, TimerFired, TimerFired, GateReady] (new_hstate []) =
      (Returned,
       \<lparr>resp = \<lparr>header = [(''Content-Type'', ''application/lumberjack''),
                          (''X-Lumberjack-Version'', ''2.0'')],
                status = Some 200,
                sent_header = [(''Content-Type'', ''application/lumberjack''),
                               (''X-Lumberjack-Version'', ''2.0'')],
                pending = [LJAck 0, LJAck 0, LJAck 0, LJAck 1],
                delivered = [],
                can_flush = True\<rparr>,
        ch = [NewBatch [JStr ''e'']],
        log = [MakeCodec ''2.0'', ReadBatchCall, Enqueue (NewBatch [JStr ''e'']),
               AwaitGate (NewBatch [JStr ''e''])]\<rparr>)"
    by (simp add: chunkedACKWriter_Keepalive_def lj_writer_def new_response_def Write_def
        WriteHeader_def Flush_def http_ServeHTTP_def http_serveBulk_def sample_handler_def
        sample_post_def new_hstate_def newServer_versions_def sample_codec_def
        chunkedACKWriter_def chunkedACKWriter_ACK_def chunkedACKWriter_HasKeepalive_def
        Header_Add_def Let_def)
  have none: "delivered (snd (chunkedACKWriter_Keepalive lj_writer 0 (new_response True))) = []"
    unfolding one by (simp add: new_response_def)
  from general one none request show ?thesis by (intro conjI)
qed

text \<open>
  C4. A POST whose \<open>X-Lumberjack-Version\<close> header is absent or names a version outside
  the table is answered with 400 Bad Request and nothing else happens: no codec is
  constructed and no batch is read (the effects are unchanged), the Ingestion Channel is
  unchanged, and nothing is written to the body.
\<close>

theorem C4_bad_version_no_side_effects:
  assumes "Method requ = ''POST''"
    and "X_Lumberjack_Version requ = [] \<or> versions h (X_Lumberjack_Version requ) = None"
    and "status (resp st) = None"
  shows "http_ServeHTTP h requ sched st = (Returned, st\<lparr>resp := WriteHeader 400 (resp st)\<rparr>)
       \<and> status (resp (snd (http_ServeHTTP h requ sched st))) = Some 400
       \<and> body (resp (snd (http_ServeHTTP h requ sched st))) = body (resp st)
       \<and> ch (snd (http_ServeHTTP h requ sched st)) = ch st
       \<and> log (snd (http_ServeHTTP h requ sched st)) = log st"
  using assms
  by (auto simp add: http_ServeHTTP_def http_serveBulk_def Let_def WriteHeader_def body_def)

theorem C4_bad_version_witness:
  "Method (sample_post\<lparr>X_Lumberjack_Version := ''1.0''\<rparr>) = ''POST''
   \<and> versions sample_handler
        (X_Lumberjack_Version (sample_post\<lparr>X_Lumberjack_Version := ''1.0''\<rparr>)) = None
   \<and> status (resp (new_hstate [NewBatch []])) = None
   \<and> status (resp (snd (http_ServeHTTP sample_handler
        (sample_post\<lparr>X_Lumberjack_Version := ''1.0''\<rparr>) [GateReady]
        (new_hstate [NewBatch []])))) = Some 400
   \<and> ch (snd (http_ServeHTTP sample_handler
        (sample_post\<lparr>X_Lumberjack_Version := ''1.0''\<rparr>) [GateReady]
        (new_hstate [NewBatch []]))) = [NewBatch []]
   \<and> log (snd (http_ServeHTTP sample_handler
        (sample_post\<lparr>X_Lumberjack_Version := ''1.0''\<rparr>) [GateReady]
        (new_hstate [NewBatch []]))) = []"
  using C4_bad_version_no_side_effects
    [of "sample_post\<lparr>X_Lumberjack_Version := ''1.0''\<rparr>" sample_handler
        "new_hstate [NewBatch []]" "[GateReady]"]
  by (simp add: sample_post_def sample_handler_def newServer_versions_def new_hstate_def
      new_response_def WriteHeader_def)

text \<open>
  C8. A request whose method is neither HEAD nor POST is answered with 405 Method Not
  Allowed by both servers; neither reads the body, constructs a codec or enqueues a batch:
  apart from the status line the state of the request is unchanged.
\<close>

theorem C8_method_not_allowed:
  assumes "m \<noteq> ''HEAD''" and "m \<noteq> ''POST''"
    and "Method requ = m" and "es_Method erequ = m"
    and "status (resp st) = None" and "status (es_resp est) = None"
  shows "http_ServeHTTP h requ sched st = (Returned, st\<lparr>resp := WriteHeader 405 (resp st)\<rparr>)
       \<and> es_ServeHTTP eh erequ est =
           (Returned, est\<lparr>es_resp := WriteHeader 405 (es_resp est)\<rparr>)
       \<and> status (resp (snd (http_ServeHTTP h requ sched st))) = Some 405
       \<and> status (es_resp (snd (es_ServeHTTP eh erequ est))) = Some 405
       \<and> ch (snd (http_ServeHTTP h requ sched st)) = ch st
       \<and> log (snd (http_ServeHTTP h requ sched st)) = log st
       \<and> es_ch (snd (es_ServeHTTP eh erequ est)) = es_ch est
       \<and> body_read (snd (es_ServeHTTP eh erequ est)) = body_read est
       \<and> sent (snd (es_ServeHTTP eh erequ est)) = sent est
       \<and> drain_log (snd (es_ServeHTTP eh erequ est)) = drain_log est"
  using assms by (simp add: http_ServeHTTP_def es_ServeHTTP_def WriteHeader_def)

theorem C8_method_not_allowed_witness:
  "''PUT'' \<noteq> ''HEAD'' \<and> ''PUT'' \<noteq> ''POST''
   \<and> status (resp (snd (http_ServeHTTP sample_handler (sample_post\<lparr>Method := ''PUT''\<rparr>)
        [GateReady] (new_hstate [])))) = Some 405
   \<and> log (snd (http_ServeHTTP sample_handler (sample_post\<lparr>Method := ''PUT''\<rparr>)
        [GateReady] (new_hstate []))) = []
   \<and> ch (snd (http_ServeHTTP sample_handler (sample_post\<lparr>Method := ''PUT''\<rparr>)
        [GateReady] (new_hstate []))) = []
   \<and> es_ServeHTTP sample_es_handler
        \<lparr>es_Method = ''PUT'', Accept_Encoding = [], Content_Encoding = [],
         gzip_NewReader = None, es_Body = [TObj [], TObj []]\<rparr> (new_es_state []) =
      (Returned, (new_es_state [])\<lparr>es_resp := (new_response True)\<lparr>status := Some 405\<rparr>\<rparr>)"
  using C8_method_not_allowed
    [of "''PUT''" "sample_post\<lparr>Method := ''PUT''\<rparr>"
        "\<lparr>es_Method = ''PUT'', Accept_Encoding = [], Content_Encoding = [],
          gzip_NewReader = None, es_Body = [TObj [], TObj []]\<rparr>"
        "new_hstate []" "new_es_state []" sample_handler "[GateReady]" sample_es_handler]
  by (simp add: sample_post_def new_hstate_def new_es_state_def new_response_def
      WriteHeader_def)

section \<open>The ES-bulk adapter: the drain task\<close>

text \<open>
  What the drain task writes, enqueues and logs, first for one write, then for the loop
  over the entries of a group, for one group and for all groups.
\<close>

lemma written_writer_Write [simp]: "written (writer_Write s st) = written st @ s"
  by (simp add: written_def writer_Write_def split: option.splits)

lemma writer_Write_fields [simp]:
  "es_ch (writer_Write s st) = es_ch st" "sent (writer_Write s st) = sent st"
  "drain_log (writer_Write s st) = drain_log st" "body_read (writer_Write s st) = body_read st"
  by (simp_all add: writer_Write_def split: option.splits)

lemma written_drain_Write [simp]: "written (drain_Write s st) = written st @ s"
proof -
  have "written ((writer_Write s st)\<lparr>drain_log := l\<rparr>) = written (writer_Write s st)" for l
    by (simp add: written_def)
  then show ?thesis by (simp add: drain_Write_def)
qed

lemma drain_Write_fields [simp]:
  "es_ch (drain_Write s st) = es_ch st" "sent (drain_Write s st) = sent st"
  "drain_log (drain_Write s st) = drain_log st @ [WriteOut s]"
  by (simp_all add: drain_Write_def)

lemma write_entries_written:
  "written (write_entries i n st) = written st @ concat (replicate (n - i) next_entry)"
proof (induction i n st rule: write_entries.induct)
  case (1 i n st)
  show ?case
  proof (cases "i < n")
    case True
    then have "n - i = Suc (n - (i + 1))" by simp
    with True 1 show ?thesis by (simp add: write_entries.simps [of i n st])
  next
    case False
    then show ?thesis by (simp add: write_entries.simps [of i n st])
  qed
qed

lemma write_entries_fields:
  "es_ch (write_entries i n st) = es_ch st \<and> sent (write_entries i n st) = sent st
   \<and> drain_log (write_entries i n st) = drain_log st @ replicate (n - i) (WriteOut next_entry)"
proof (induction i n st rule: write_entries.induct)
  case (1 i n st)
  show ?case
  proof (cases "i < n")
    case True
    then have "n - i = Suc (n - (i + 1))" by simp
    with True 1 show ?thesis
      by (simp add: write_entries.simps [of i n st] replicate_append_same)
  next
    case False
    then show ?thesis by (simp add: write_entries.simps [of i n st])
  qed
qed

lemma written_log_update [simp]: "written (st\<lparr>drain_log := l\<rparr>) = written st"
  by (simp add: written_def)

lemma written_ch_update [simp]: "written (st\<lparr>es_ch := c\<rparr>) = written st"
  by (simp add: written_def)

lemma written_sent_update [simp]: "written (st\<lparr>sent := c\<rparr>) = written st"
  by (simp add: written_def)

lemma written_body_read_update [simp]: "written (st\<lparr>body_read := c\<rparr>) = written st"
  by (simp add: written_def)

lemma drain_group_written:
  "written (snd (drain_group sil g (first, st))) =
     written st @ (if sil then [] else items first (length (info_meta g)))"
  by (simp add: drain_group_def Let_def items_def write_entries_written)

lemma drain_group_first:
  "fst (drain_group sil g (first, st)) = (first \<and> (sil \<or> length (info_meta g) = 0))"
  by (simp add: drain_group_def Let_def)

lemma drain_group_fields:
  "es_ch (snd (drain_group sil g (first, st))) = es_ch st @ [info_batch g]
   \<and> sent (snd (drain_group sil g (first, st))) = sent st"
  by (simp add: drain_group_def Let_def write_entries_fields)

lemma items_add: "items first (a + b) = items first a @ items (first \<and> a = 0) b"
proof (cases a)
  case 0
  then show ?thesis by (simp add: items_def)
next
  case (Suc a')
  then show ?thesis by (simp add: items_def replicate_add)
qed

lemma drain_written:
  "written (snd (drain sil gs (first, st))) =
     written st @ (if sil then [] else items first (sum_list (map (\<lambda>g. length (info_meta g)) gs)))"
proof (induction gs arbitrary: first st)
  case Nil
  then show ?case by (simp add: items_def)
next
  case (Cons g gs)
  obtain f' st' where d: "drain_group sil g (first, st) = (f', st')"
    by (cases "drain_group sil g (first, st)")
  have f': "f' = (first \<and> (sil \<or> length (info_meta g) = 0))"
    using drain_group_first [of sil g first st] by (simp add: d)
  have w: "written st' = written st @ (if sil then [] else items first (length (info_meta g)))"
    using drain_group_written [of sil g first st] by (simp add: d)
  show ?case
    by (simp add: d Cons.IH w f' items_add)
qed

lemma drain_fields:
  "es_ch (snd (drain sil gs (first, st))) = es_ch st @ map info_batch gs
   \<and> sent (snd (drain sil gs (first, st))) = sent st"
proof (induction gs arbitrary: first st)
  case Nil
  then show ?case by simp
next
  case (Cons g gs)
  obtain f' st' where d: "drain_group sil g (first, st) = (f', st')"
    by (cases "drain_group sil g (first, st)")
  show ?case using drain_group_fields [of sil g first st]
    by (simp add: d Cons.IH)
qed


lemma drain_group_log:
  "drain_log (snd (drain_group False g (first, st))) =
     drain_log st @ [Enqueue (info_batch g)] @
     (if length (info_meta g) = 0 then []
      else (if first then [WriteOut first_entry] else []) @
           replicate (length (info_meta g) - (if first then 1 else 0)) (WriteOut next_entry) @
           [AwaitGate (info_batch g)])"
  by (simp add: drain_group_def Let_def write_entries_fields)

lemma drain_silent_log:
  "drain_log (snd (drain True gs (first, st))) = drain_log st @ map (\<lambda>g. Enqueue (info_batch g)) gs"
  by (induction gs arbitrary: first st) (simp_all add: drain_group_def Let_def)


section \<open>The ES-bulk adapter: the decode loop\<close>

text \<open>
  The loop either accepts a pair and goes on, or stops and leaves the state as it is.
  Three invariants follow by induction over the pairs: the events and metadata entries of
  the state are those it had plus the accepted ones, in order; every group sent is full;
  metadata and events stay paired.
\<close>

lemma decode_loop_step:
  "decode_loop n (TObj m # TObj e # ts) s = decode_loop n ts (accept_pair n (Some m) e s)"
  "decode_loop n (TNull # TObj e # ts) s = decode_loop n ts (accept_pair n None e s)"
  by (simp_all add: decode_loop.simps [of n "_ # _ # _" s])

lemma decode_loop_stop: "accepted ts = [] \<Longrightarrow> snd (decode_loop n ts s) = s"
proof (cases ts)
  case Nil
  then show ?thesis by (simp add: decode_loop.simps [of n _ s])
next
  case (Cons t ts1)
  assume a: "accepted ts = []"
  show ?thesis
  proof (cases ts1)
    case Nil
    with Cons show ?thesis by (cases t) (simp_all add: decode_loop.simps [of n _ s])
  next
    case c2: (Cons t2 ts2)
    with Cons a show ?thesis
      by (cases t; cases t2) (simp_all add: decode_loop.simps [of n _ s])
  qed
qed

lemma accept_pair_flat:
  "flat_events (accept_pair n meta m s) = flat_events s @ [mk_event (meta, m)]"
  "flat_metas (accept_pair n meta m s) = flat_metas s @ [meta]"
  by (simp_all add: accept_pair_def Let_def flat_events_def flat_metas_def mk_event_def)

lemma decode_loop_flat:
  "flat_events (snd (decode_loop n ts s)) = flat_events s @ map mk_event (accepted ts)
   \<and> flat_metas (snd (decode_loop n ts s)) = flat_metas s @ map fst (accepted ts)"
proof (induction ts arbitrary: s rule: accepted.induct)
  case (1 m e ts)
  then show ?case by (simp add: decode_loop_step accept_pair_flat)
next
  case (2 e ts)
  then show ?case by (simp add: decode_loop_step accept_pair_flat)
qed (simp_all add: decode_loop_stop)

lemma accept_pair_full: "full_groups n s \<Longrightarrow> full_groups n (accept_pair n meta m s)"
  by (auto simp add: full_groups_def accept_pair_def Let_def append_cap_def)

lemma decode_loop_full: "full_groups n s \<Longrightarrow> full_groups n (snd (decode_loop n ts s))"
proof (induction ts arbitrary: s rule: accepted.induct)
  case (1 m e ts)
  then show ?case by (simp add: decode_loop_step accept_pair_full)
next
  case (2 e ts)
  then show ?case by (simp add: decode_loop_step accept_pair_full)
qed (simp_all add: decode_loop_stop)

lemma accepted_pair_tokens: "accepted (pair_tokens ps) = map (\<lambda>p. (Some (fst p), snd p)) ps"
  by (induction ps) (simp_all add: pair_tokens_def)

lemma decode_loop_pair_tokens: "fst (decode_loop n (pair_tokens ps) s) = NoMore"
proof (induction ps arbitrary: s)
  case Nil
  then show ?case by (simp add: pair_tokens_def decode_loop.simps)
next
  case (Cons p ps)
  have "pair_tokens (p # ps) = TObj (fst p) # TObj (snd p) # pair_tokens ps"
    by (simp add: pair_tokens_def)
  then show ?case by (simp add: decode_loop_step Cons.IH)
qed

lemma decode_loop_exit:
  "fst (decode_loop n ts s) = NilMapPanic \<or> fst (decode_loop n ts s) = NoMore
   \<or> (\<exists>err. fst (decode_loop n ts s) = DecodeError err)"
  by (cases "fst (decode_loop n ts s)") auto


section \<open>The responses of the ES-bulk adapter are JSON texts\<close>

lemma json_first_entry: "json_element first_entry"
proof -
  have n: "json_value ''200''"
    by (rule json_value_json_element_json_elements_json_member_json_members.number)
       (simp add: json_number_def is_digit_def)
  have e1: "json_element ('' '' @ ''200'' @ [])"
    by (rule element) (use n in \<open>simp_all add: is_ws_def\<close>)
  have m1: "json_member ([] @ ''\"status\"'' @ [] @ '':'' @ ('' '' @ ''200'' @ []))"
    by (rule member) (use e1 in \<open>simp_all add: json_string_def\<close>)
  have o1: "json_value (''{'' @ ([] @ ''\"status\"'' @ [] @ '':'' @ ('' '' @ ''200'' @ [])) @ ''}'')"
    by (rule object) (rule one_member, rule m1)
  have e2: "json_element ([] @ ''{\"status\": 200}'' @ [])"
    by (rule element) (use o1 in simp_all)
  have m2: "json_member ([] @ ''\"created\"'' @ [] @ '':'' @ ([] @ ''{\"status\": 200}'' @ []))"
    by (rule member) (use e2 in \<open>simp_all add: json_string_def\<close>)
  have o2: "json_value (''{'' @ ([] @ ''\"created\"'' @ [] @ '':'' @ ([] @ ''{\"status\": 200}'' @ [])) @ ''}'')"
    by (rule object) (rule one_member, rule m2)
  have "json_element ([] @ first_entry @ [])"
    by (rule element) (use o2 in \<open>simp_all add: first_entry_def\<close>)
  then show ?thesis by simp
qed

lemma next_entry_eq: "next_entry = '','' @ first_entry"
  by (simp add: next_entry_def first_entry_def)

lemma items_Suc_Suc: "items True (Suc (Suc k)) = first_entry @ '','' @ items True (Suc k)"
  by (simp add: items_def next_entry_eq)

lemma json_items: "json_elements (items True (Suc k))"
proof (induction k)
  case 0
  have "items True (Suc 0) = first_entry" by (simp add: items_def)
  then show ?case using json_first_entry by (simp add: one_element)
next
  case (Suc k)
  show ?case
    unfolding items_Suc_Suc by (rule more_elements) (rule json_first_entry, rule Suc)
qed

lemma json_items_array: "json_value (''['' @ items True k @ '']'')"
proof (cases k)
  case 0
  have "json_value (''['' @ [] @ '']'')" by (rule empty_array) simp
  with 0 show ?thesis by (simp add: items_def)
next
  case (Suc j)
  then show ?thesis using array [OF json_items [of j]] by simp
qed

lemma json_response: "json_element (''{\"items\": ['' @ items True k @ '']}'')"
proof -
  let ?arr = "''['' @ items True k @ '']''"
  have e: "json_element ('' '' @ ?arr @ [])"
    by (rule element) (use json_items_array [of k] in \<open>simp_all add: is_ws_def\<close>)
  have m: "json_member ([] @ ''\"items\"'' @ [] @ '':'' @ ('' '' @ ?arr @ []))"
    by (rule member) (use e in \<open>simp_all add: json_string_def\<close>)
  have "json_value (''{'' @ ([] @ ''\"items\"'' @ [] @ '':'' @ ('' '' @ ?arr @ [])) @ ''}'')"
    by (rule object) (rule one_member, rule m)
  then have "json_element ([] @ (''{'' @ ([] @ ''\"items\"'' @ [] @ '':'' @ ('' '' @ ?arr @ [])) @ ''}'') @ [])"
    by (rule element [rotated]) simp_all
  then show ?thesis by simp
qed


text \<open>What the drain task writes for \<open>n\<close> entries is what the client reads as \<open>n\<close> entries.\<close>

lemma items_status_entries: "items True n = status_entries n"
proof (induction n rule: status_entries.induct)
  case 1
  show ?case by (simp add: items_def)
next
  case 2
  show ?case by (simp add: items_def first_entry_def)
next
  case (3 n)
  then show ?case by (simp add: items_Suc_Suc first_entry_def)
qed

section \<open>The ES-bulk adapter: a request that reaches the decode loop\<close>

text \<open>
  What \<open>ServeHTTP\<close> returns for a request that reaches the decode loop and whose loop does
  not panic, and the sizes of the groups when the threshold is positive.
\<close>

lemma payload_new_response [simp]: "payload (new_response f) = []"
  by (simp add: payload_def body_def new_response_def)

lemma written_gz_Close [simp]: "written (gz_Close st) = written st"
  by (simp add: gz_Close_def written_def split: option.splits)

lemma gz_gz_Close [simp]: "gz (gz_Close st) = None"
  by (simp add: gz_Close_def split: option.splits)

lemma gz_Close_fields [simp]:
  "es_ch (gz_Close st) = es_ch st" "sent (gz_Close st) = sent st"
  "drain_log (gz_Close st) = drain_log st"
  by (simp_all add: gz_Close_def split: option.splits)

lemma payload_gz_Close: "payload (es_resp (gz_Close st)) = written st"
  by (simp add: gz_Close_def written_def split: option.splits)

lemma written_resp_update:
  "payload r = payload (es_resp st) \<Longrightarrow> written (st\<lparr>es_resp := r\<rparr>) = written st"
  by (simp add: written_def)

lemma accept_pair_paired: "paired s \<Longrightarrow> paired (accept_pair n meta m s)"
  by (simp add: paired_def accept_pair_def Let_def)

lemma paired_loop_init: "paired (loop_init n)"
  by (simp add: paired_def loop_init_def)

lemma decode_loop_paired: "paired s \<Longrightarrow> paired (snd (decode_loop n ts s))"
proof (induction ts arbitrary: s rule: accepted.induct)
  case (1 m e ts)
  then show ?case by (simp add: decode_loop_step accept_pair_paired)
next
  case (2 e ts)
  then show ?case by (simp add: decode_loop_step accept_pair_paired)
qed (simp_all add: decode_loop_stop)

lemma started_writer_Write: "started c st \<Longrightarrow> started c (writer_Write s st)"
  by (simp add: started_def writer_Write_def status_Write split: option.splits)

lemma started_drain_Write: "started c st \<Longrightarrow> started c (drain_Write s st)"
  using started_writer_Write [of c st s] by (simp add: started_def drain_Write_def)

lemma started_write_entries: "started c st \<Longrightarrow> started c (write_entries i n st)"
proof (induction i n st rule: write_entries.induct)
  case (1 i n st)
  then show ?case
    by (cases "i < n") (simp_all add: write_entries.simps [of i n st] started_drain_Write)
qed

lemma started_drain_group: "started c st \<Longrightarrow> started c (snd (drain_group sil g (first, st)))"
proof -
  assume a: "started c st"
  let ?st1 = "st\<lparr>es_ch := es_ch st @ [info_batch g],
                  drain_log := drain_log st @ [Enqueue (info_batch g)]\<rparr>"
  have s1: "started c ?st1" using a by (simp add: started_def)
  have s2: "started c (if first then drain_Write first_entry ?st1 else ?st1)"
    using s1 by (simp add: started_drain_Write)
  have s3: "started c (write_entries i n (if first then drain_Write first_entry ?st1 else ?st1))" for i n
    using s2 by (rule started_write_entries)
  have s4: "started c (x\<lparr>drain_log := l\<rparr>) = started c x" for x l
    by (simp add: started_def)
  show ?thesis using s1 s3
    by (simp add: drain_group_def Let_def s4)
qed

lemma started_drain: "started c st \<Longrightarrow> started c (snd (drain sil gs (first, st)))"
proof (induction gs arbitrary: first st)
  case Nil
  then show ?case by simp
next
  case (Cons g gs)
  obtain f' st' where d: "drain_group sil g (first, st) = (f', st')"
    by (cases "drain_group sil g (first, st)")
  have "started c st'" using started_drain_group [OF Cons.prems, of sil g first] by (simp add: d)
  then show ?case by (simp add: d Cons.IH)
qed

lemma started_gz_Close: "started c st \<Longrightarrow> started c (gz_Close st)"
  by (simp add: started_def gz_Close_def status_Write split: option.splits)

lemma final_groups_events:
  "concat (map (\<lambda>g. Events (info_batch g)) (final_groups s)) = flat_events s"
  by (simp add: final_groups_def flat_events_def)

lemma final_groups_metas:
  "paired s \<Longrightarrow>
   sum_list (map (\<lambda>g. length (info_meta g)) (final_groups s)) = length (flat_metas s)"
  by (simp add: final_groups_def flat_metas_def length_concat comp_def paired_def)

lemma flat_loop_init [simp]: "flat_events (loop_init n) = []" "flat_metas (loop_init n) = []"
  by (simp_all add: flat_events_def flat_metas_def loop_init_def)

lemma serveBulk_returned:
  assumes r: "reaches_loop h requ st" and ex: "fst (loop_result h requ) \<noteq> NilMapPanic"
    and fresh: "status (es_resp st) = None"
  shows "fst (es_ServeHTTP h requ st) = Returned
    \<and> sent (snd (es_ServeHTTP h requ st)) = final_groups (snd (loop_result h requ))
    \<and> es_ch (snd (es_ServeHTTP h requ st))
        = es_ch st @ map info_batch (final_groups (snd (loop_result h requ)))
    \<and> payload (es_resp (snd (es_ServeHTTP h requ st)))
        = payload (es_resp st) @ ''{\"items\": ['' @
          (if silent h then [] else items True (length (flat_metas (snd (loop_result h requ)))))
          @ '']}''
    \<and> status (es_resp (snd (es_ServeHTTP h requ st))) = Some 200"
proof -
  obtain e s where l: "decode_loop (nat (split h)) (es_Body requ) (loop_init (nat (split h))) = (e, s)"
    by (cases "decode_loop (nat (split h)) (es_Body requ) (loop_init (nat (split h)))")
  have e: "e \<noteq> NilMapPanic" using ex by (simp add: loop_result_def l)
  define st1 where "st1 = (if Contains (Accept_Encoding requ) ''gzip''
                 then st\<lparr>gz := Some [],
                         es_resp := Header_Add ''Content-Encoding'' ''gzip'' (es_resp st)\<rparr>
                 else st\<lparr>gz := None\<rparr>)"
  define st2 where "st2 = (if Content_Encoding requ = ''gzip'' then st1\<lparr>body_read := True\<rparr> else st1)"
  define st4 where "st4 = (writer_Write ''{\"items\": [''
                         (st2\<lparr>es_resp :=
                            WriteHeader 200
                              (Header_Add ''Content-Type'' ''application/json'' (es_resp st2))\<rparr>))\<lparr>body_read := True\<rparr>"
  define st5 where "st5 = snd (drain (silent h) (final_groups s) (True, st4\<lparr>sent := final_groups s\<rparr>))"
  have w1: "written st1 = payload (es_resp st)" "es_ch st1 = es_ch st" "status (es_resp st1) = None"
    using fresh by (simp_all add: st1_def written_def)
  have w2: "written st2 = payload (es_resp st)" "es_ch st2 = es_ch st" "status (es_resp st2) = None"
    using w1 by (simp_all add: st2_def)
  have w4: "written st4 = payload (es_resp st) @ ''{\"items\": [''" "es_ch st4 = es_ch st"
    using w2 by (simp_all add: st4_def written_resp_update)
  have p: "paired s"
    using decode_loop_paired [OF paired_loop_init, of "nat (split h)" "es_Body requ" "nat (split h)"]
    by (simp add: l)
  have s4: "started 200 st4"
    using w2(3) started_writer_Write [of 200 "st2\<lparr>es_resp :=
                            WriteHeader 200
                              (Header_Add ''Content-Type'' ''application/json'' (es_resp st2))\<rparr>" "''{\"items\": [''"]
    by (simp add: st4_def started_def status_WriteHeader)
  have s4': "started 200 (st4\<lparr>sent := final_groups s\<rparr>)" using s4 by (simp add: started_def)
  have w5: "written st5 = payload (es_resp st) @ ''{\"items\": ['' @
          (if silent h then [] else items True (length (flat_metas s)))"
    by (simp add: st5_def drain_written w4 final_groups_metas [OF p])
  have f5: "es_ch st5 = es_ch st @ map info_batch (final_groups s)" "sent st5 = final_groups s"
    by (simp_all add: st5_def drain_fields w4)
  have s5: "started 200 st5" unfolding st5_def by (rule started_drain [OF s4'])
  have res: "es_ServeHTTP h requ st = (Returned, gz_Close (writer_Write '']}'' st5))"
    using r e
    by (cases e)
       (simp_all add: reaches_loop_def es_ServeHTTP_def es_serveBulk_def l Let_def
          st1_def st2_def st4_def final_groups_def st5_def)
  have s6: "started 200 (gz_Close (writer_Write '']}'' st5))"
    by (rule started_gz_Close, rule started_writer_Write, rule s5)
  show ?thesis
    using s6 by (simp add: res loop_result_def l payload_gz_Close w5 f5 started_def)
qed


lemma all_same_length:
  "list_all (\<lambda>g. length (Events (info_batch g)) = n) gs \<Longrightarrow>
   map (\<lambda>g. length (Events (info_batch g))) gs = replicate (length gs) n
   \<and> length (concat (map (\<lambda>g. Events (info_batch g)) gs)) = length gs * n"
  by (induction gs) simp_all

lemma final_groups_sizes:
  assumes f: "full_groups n s" and n: "0 < n" and len: "length (flat_events s) = N"
  shows "map (\<lambda>g. length (Events (info_batch g))) (final_groups s) =
           replicate (N div n) n @ (if N mod n = 0 then [] else [N mod n])"
proof -
  let ?k = "length (batches s)" and ?r = "length (events s)"
  have a: "list_all (\<lambda>g. length (Events (info_batch g)) = n) (batches s)" and r: "?r < n"
    using f by (simp_all add: full_groups_def)
  have N: "N = ?k * n + ?r"
    using len all_same_length [OF a] by (simp add: flat_events_def)
  have d: "N div n = ?k" using N r n by simp
  have m: "N mod n = ?r" using N r by simp
  show ?thesis
    using all_same_length [OF a] by (simp add: final_groups_def d m)
qed

lemma full_groups_loop_init: "0 < n \<Longrightarrow> full_groups n (loop_init n)"
  by (simp add: full_groups_def loop_init_def)

section \<open>The ES-bulk adapter: claims\<close>

text \<open>
  C9. An ES-bulk POST that declares \<open>Content-Encoding: gzip\<close> and whose body the gzip
  reader rejects is answered with 400 Bad Request and the error text as the data of the
  body (gzip-encoded when the client accepts gzip); the handler returns there: the items
  array is not opened, no group is formed, nothing reaches the Ingestion Channel and the
  drain task is not started.
\<close>

theorem C9_gzip_reader_failure:
  assumes "es_Method requ = ''POST''" and "Content_Encoding requ = ''gzip''"
    and "gzip_NewReader requ = Some err" and "status (es_resp st) = None"
  shows "fst (es_ServeHTTP h requ st) = Returned
       \<and> status (es_resp (snd (es_ServeHTTP h requ st))) = Some 400
       \<and> payload (es_resp (snd (es_ServeHTTP h requ st))) = payload (es_resp st) @ err
       \<and> sent (snd (es_ServeHTTP h requ st)) = sent st
       \<and> es_ch (snd (es_ServeHTTP h requ st)) = es_ch st
       \<and> drain_log (snd (es_ServeHTTP h requ st)) = drain_log st"
  using assms
  by (simp add: es_ServeHTTP_def es_serveBulk_def Let_def gz_Close_def writer_Write_def
      status_Write status_WriteHeader)

theorem C9_gzip_reader_failure_witness:
  "fst (es_ServeHTTP sample_es_handler
     \<lparr>es_Method = ''POST'', Accept_Encoding = [], Content_Encoding = ''gzip'',
      gzip_NewReader = Some ''gzip: invalid header'', es_Body = []\<rparr> (new_es_state [])) = Returned
   \<and> status (es_resp (snd (es_ServeHTTP sample_es_handler
     \<lparr>es_Method = ''POST'', Accept_Encoding = [], Content_Encoding = ''gzip'',
      gzip_NewReader = Some ''gzip: invalid header'', es_Body = []\<rparr> (new_es_state [])))) = Some 400
   \<and> payload (es_resp (snd (es_ServeHTTP sample_es_handler
     \<lparr>es_Method = ''POST'', Accept_Encoding = [], Content_Encoding = ''gzip'',
      gzip_NewReader = Some ''gzip: invalid header'', es_Body = []\<rparr> (new_es_state []))))
       = ''gzip: invalid header''
   \<and> es_ch (snd (es_ServeHTTP sample_es_handler
     \<lparr>es_Method = ''POST'', Accept_Encoding = [], Content_Encoding = ''gzip'',
      gzip_NewReader = Some ''gzip: invalid header'', es_Body = []\<rparr> (new_es_state []))) = []"
  using C9_gzip_reader_failure
    [of "\<lparr>es_Method = ''POST'', Accept_Encoding = [], Content_Encoding = ''gzip'',
          gzip_NewReader = Some ''gzip: invalid header'', es_Body = []\<rparr>"
        "''gzip: invalid header''" "new_es_state []" sample_es_handler]
  by (simp add: new_es_state_def new_response_def payload_def body_def)

text \<open>
  C2 (the code departs from it). The claim: for each group the drain task enqueues the
  batch, then waits on its gate, and appends the status entries only once the gate has
  been signaled. The drain task writes the entries straight after the enqueue and waits on
  the gate last, at the end of the iteration, for every group with entries to write; for
  two pairs under the threshold 2, both entries are written before the wait.
\<close>

theorem C2_status_written_before_gate:
  "drain_log (snd (drain_group False g (first, st))) =
     drain_log st @ [Enqueue (info_batch g)] @
     (if length (info_meta g) = 0 then []
      else (if first then [WriteOut first_entry] else []) @
           replicate (length (info_meta g) - (if first then 1 else 0)) (WriteOut next_entry) @
           [AwaitGate (info_batch g)])
   \<and> drain_log (snd (es_ServeHTTP sample_es_handler two_pairs (new_es_state []))) =
     [Enqueue batch_ab, WriteOut first_entry, WriteOut next_entry, AwaitGate batch_ab]"
proof -
  have "drain_log (snd (es_ServeHTTP sample_es_handler two_pairs (new_es_state []))) =
     [Enqueue batch_ab, WriteOut first_entry, WriteOut next_entry, AwaitGate batch_ab]"
    by code_simp
  then show ?thesis by (simp only: drain_group_log simp_thms)
qed

text \<open>
  C3 (the code departs from it). The claim: in silent mode no status entry is written,
  every group is enqueued, and the gate of each group is still waited on before the next
  group is drained. The first two parts hold. The wait is the last statement of the
  iteration and the silent branch leaves the iteration by \<open>continue\<close> before it: in silent
  mode the drain task only enqueues, whatever the groups, and never waits on a gate.
\<close>

theorem C3_silent_gate_not_awaited:
  "drain_log (snd (drain True gs (first, st))) =
     drain_log st @ map (\<lambda>g. Enqueue (info_batch g)) gs
   \<and> fst (es_ServeHTTP silent_handler two_pairs (new_es_state [])) = Returned
   \<and> drain_log (snd (es_ServeHTTP silent_handler two_pairs (new_es_state []))) =
       [Enqueue batch_a, Enqueue batch_b]
   \<and> payload (es_resp (snd (es_ServeHTTP silent_handler two_pairs (new_es_state [])))) =
       ''{\"items\": []}''"
proof -
  have a: "fst (es_ServeHTTP silent_handler two_pairs (new_es_state [])) = Returned"
    by code_simp
  have b: "drain_log (snd (es_ServeHTTP silent_handler two_pairs (new_es_state []))) =
       [Enqueue batch_a, Enqueue batch_b]"
    by code_simp
  have c: "payload (es_resp (snd (es_ServeHTTP silent_handler two_pairs (new_es_state [])))) =
       ''{\"items\": []}''"
    by code_simp
  show ?thesis by (simp only: drain_silent_log a b c simp_thms)
qed

text \<open>
  What the adapter does for every request that reaches the decode loop and whose loop
  ends at the end of the input or on a decode error: the groups sent are the full groups
  followed by the residual group when it is not empty, so that the events sent are exactly
  the accepted events, in order; every group sent is enqueued; and the data of the response
  is the opening of the items array, the status entries and the terminator \<open>]}\<close>, which is
  a JSON text.
\<close>

lemma serveBulk_flushes_and_closes:
  assumes "reaches_loop h requ st" and "fst (loop_result h requ) \<noteq> NilMapPanic"
    and "status (es_resp st) = None" and "body (es_resp st) = []"
  shows "fst (es_ServeHTTP h requ st) = Returned
    \<and> sent (snd (es_ServeHTTP h requ st)) = final_groups (snd (loop_result h requ))
    \<and> concat (map (\<lambda>g. Events (info_batch g)) (sent (snd (es_ServeHTTP h requ st))))
        = map mk_event (accepted (es_Body requ))
    \<and> es_ch (snd (es_ServeHTTP h requ st))
        = es_ch st @ map info_batch (sent (snd (es_ServeHTTP h requ st)))
    \<and> payload (es_resp (snd (es_ServeHTTP h requ st)))
        = ''{\"items\": ['' @
          status_entries (if silent h then 0 else length (accepted (es_Body requ))) @ '']}''
    \<and> json_element (payload (es_resp (snd (es_ServeHTTP h requ st))))
    \<and> status (es_resp (snd (es_ServeHTTP h requ st))) = Some 200"
proof -
  note R = serveBulk_returned [OF assms(1) assms(2) assms(3)]
  have p0: "payload (es_resp st) = []" using assms(4) by (simp add: payload_def)
  have fl: "flat_events (snd (loop_result h requ)) = map mk_event (accepted (es_Body requ))"
    "length (flat_metas (snd (loop_result h requ))) = length (accepted (es_Body requ))"
    using decode_loop_flat [of "nat (split h)" "es_Body requ" "loop_init (nat (split h))"]
    by (simp_all add: loop_result_def)
  have pl: "payload (es_resp (snd (es_ServeHTTP h requ st)))
        = ''{\"items\": ['' @
          items True (if silent h then 0 else length (accepted (es_Body requ))) @ '']}''"
    using R by (simp add: p0 fl items_def)
  have js: "json_element (payload (es_resp (snd (es_ServeHTTP h requ st))))"
    unfolding pl by (rule json_response)
  show ?thesis
    using R pl js by (simp add: final_groups_events fl items_status_entries)
qed

text \<open>
  C5 (the code departs from it). The claim: whenever the decode loop is over, the
  residual group is still sent as a final batch, so that no accepted event is dropped, and
  the response is always closed with \<open>]}\<close>. The code does so when the loop ends at the end
  of the input or on a decode error, and misses the source line \<open>null\<close>: it decodes
  without an error into a nil map, and the assignment \<open>evt["@metadata"] = meta\<close> panics.
  For a pair followed by a pair with such a source line, under the threshold 2: the first
  pair has been accepted into the working group when the loop panics; the handler ends
  by the panic; the group is neither sent nor enqueued; and the response stays open after
  \<open>{"items": [\<close>.
\<close>

theorem C5_null_source_drops_group:
  "reaches_loop sample_es_handler null_source (new_es_state [])
   \<and> loop_result sample_es_handler null_source =
       (NilMapPanic,
        \<lparr>events = [JObj [(''message'', JStr ''a''), (''@metadata'', JObj [(''index'', JObj [])])]],
         events_cap = 2, metas = [Some [(''index'', JObj [])]], batches = []\<rparr>)
   \<and> fst (es_ServeHTTP sample_es_handler null_source (new_es_state [])) = Panicked
   \<and> sent (snd (es_ServeHTTP sample_es_handler null_source (new_es_state []))) = []
   \<and> es_ch (snd (es_ServeHTTP sample_es_handler null_source (new_es_state []))) = []
   \<and> payload (es_resp (snd (es_ServeHTTP sample_es_handler null_source (new_es_state []))))
       = ''{\"items\": [''"
proof -
  have a: "reaches_loop sample_es_handler null_source (new_es_state [])"
    by (simp add: reaches_loop_def sample_es_handler_def null_source_def new_es_state_def
        makeslice_def)
  have b: "loop_result sample_es_handler null_source =
       (NilMapPanic,
        \<lparr>events = [JObj [(''message'', JStr ''a''), (''@metadata'', JObj [(''index'', JObj [])])]],
         events_cap = 2, metas = [Some [(''index'', JObj [])]], batches = []\<rparr>)"
    by code_simp
  have c: "fst (es_ServeHTTP sample_es_handler null_source (new_es_state [])) = Panicked"
    by code_simp
  have d: "sent (snd (es_ServeHTTP sample_es_handler null_source (new_es_state []))) = []"
    by code_simp
  have e: "es_ch (snd (es_ServeHTTP sample_es_handler null_source (new_es_state []))) = []"
    by code_simp
  have f: "payload (es_resp (snd (es_ServeHTTP sample_es_handler null_source (new_es_state []))))
       = ''{\"items\": [''"
    by code_simp
  from a b c d e f show ?thesis by (intro conjI)
qed

text \<open>
  C6, as the claim states it, fails: a threshold \<open>s > 0\<close> may be too large for \<open>make\<close>.
  Under the threshold 2^62 the first \<open>make\<close> panics, before the response is started: no
  group is formed and nothing is written, whatever the body.
\<close>

theorem C6_huge_threshold_counterexample:
  "0 < split huge_handler
   \<and> es_Body (five_pairs\<lparr>Accept_Encoding := []\<rparr>) = pair_tokens five
   \<and> es_ServeHTTP huge_handler (five_pairs\<lparr>Accept_Encoding := []\<rparr>) (new_es_state []) =
       (Panicked, new_es_state [])
   \<and> sent (new_es_state []) = []
   \<and> es_ch (new_es_state []) = []
   \<and> status (es_resp (new_es_state [])) = None
   \<and> payload (es_resp (new_es_state [])) = []"
  by (simp add: es_ServeHTTP_def es_serveBulk_def huge_handler_def five_pairs_def
      new_es_state_def makeslice_def Let_def gz_Close_def new_response_def payload_def
      body_def)

text \<open>
  C6, amended. For an ES-bulk request with threshold \<open>s > 0\<close> for which the runtime makes
  the two slices of capacity \<open>s\<close>, whose body is \<open>n\<close> well-formed pairs, on a handler that
  is not silent: the groups sent have \<open>s\<close> events each, \<open>n div s\<close> of them, followed by
  one group of \<open>n mod s\<close> events when that is not zero; together they hold the events of
  the pairs in input order; they are enqueued in that order; and the items array of the
  response holds exactly \<open>n\<close> status entries.
\<close>

theorem C6_groups_and_items:
  assumes "reaches_loop h requ st" and "0 < split h" and "\<not> silent h"
    and "es_Body requ = pair_tokens ps"
    and "status (es_resp st) = None" and "body (es_resp st) = []"
  shows "fst (es_ServeHTTP h requ st) = Returned
    \<and> map (\<lambda>g. length (Events (info_batch g))) (sent (snd (es_ServeHTTP h requ st)))
        = replicate (length ps div nat (split h)) (nat (split h))
          @ (if length ps mod nat (split h) = 0 then [] else [length ps mod nat (split h)])
    \<and> concat (map (\<lambda>g. Events (info_batch g)) (sent (snd (es_ServeHTTP h requ st))))
        = map (\<lambda>p. mk_event (Some (fst p), snd p)) ps
    \<and> es_ch (snd (es_ServeHTTP h requ st))
        = es_ch st @ map info_batch (sent (snd (es_ServeHTTP h requ st)))
    \<and> payload (es_resp (snd (es_ServeHTTP h requ st)))
        = ''{\"items\": ['' @ status_entries (length ps) @ '']}''"
proof -
  let ?n = "nat (split h)"
  let ?s = "snd (loop_result h requ)"
  have ex: "fst (loop_result h requ) \<noteq> NilMapPanic"
    using decode_loop_pair_tokens [of ?n ps "loop_init ?n"]
    by (simp add: loop_result_def assms(4))
  note R = serveBulk_returned [OF assms(1) ex assms(5)]
  have p0: "payload (es_resp st) = []" using assms(6) by (simp add: payload_def)
  have n: "0 < ?n" using assms(2) by simp
  have fl: "flat_events ?s = map (\<lambda>p. mk_event (Some (fst p), snd p)) ps"
    "length (flat_metas ?s) = length ps"
    using decode_loop_flat [of ?n "es_Body requ" "loop_init ?n"]
    by (simp_all add: loop_result_def assms(4) accepted_pair_tokens comp_def)
  have fg: "full_groups ?n ?s"
    unfolding loop_result_def by (rule decode_loop_full [OF full_groups_loop_init [OF n]])
  have len: "length (flat_events ?s) = length ps" by (simp add: fl)
  note sizes = final_groups_sizes [OF fg n len]
  show ?thesis
    using R sizes assms(3) by (simp add: p0 fl final_groups_events items_status_entries)
qed

theorem C6_groups_and_items_witness:
  "reaches_loop sample_es_handler five_pairs (new_es_state []) \<and> 0 < split sample_es_handler
   \<and> \<not> silent sample_es_handler \<and> es_Body five_pairs = pair_tokens five
   \<and> map (\<lambda>g. length (Events (info_batch g)))
        (sent (snd (es_ServeHTTP sample_es_handler five_pairs (new_es_state [])))) = [2, 2, 1]
   \<and> payload (es_resp (snd (es_ServeHTTP sample_es_handler five_pairs (new_es_state [])))) =
        ''{\"items\": [{\"created\":{\"status\": 200}},{\"created\":{\"status\": 200}},{\"created\":{\"status\": 200}},{\"created\":{\"status\": 200}},{\"created\":{\"status\": 200}}]}''"
proof -
  have h1: "reaches_loop sample_es_handler five_pairs (new_es_state [])"
    by (simp add: reaches_loop_def sample_es_handler_def five_pairs_def new_es_state_def
        makeslice_def)
  have h2: "0 < split sample_es_handler" by (simp add: sample_es_handler_def)
  have h3: "\<not> silent sample_es_handler" by (simp add: sample_es_handler_def)
  have h4: "es_Body five_pairs = pair_tokens five" by (simp add: five_pairs_def)
  have h5: "status (es_resp (new_es_state [])) = None"
    by (simp add: new_es_state_def new_response_def)
  have h6: "body (es_resp (new_es_state [])) = []"
    by (simp add: new_es_state_def new_response_def body_def)
  have l: "length five = 5" by (simp add: five_def)
  have n: "nat (split sample_es_handler) = 2" by (simp add: sample_es_handler_def)
  have r: "replicate (5 div 2) (2::nat) @ (if (5::nat) mod 2 = 0 then [] else [5 mod 2]) = [2, 2, 1]"
    by code_simp
  have e: "status_entries 5 =
     ''{\"created\":{\"status\": 200}},{\"created\":{\"status\": 200}},{\"created\":{\"status\": 200}},{\"created\":{\"status\": 200}},{\"created\":{\"status\": 200}}''"
    by code_simp
  show ?thesis
    using C6_groups_and_items [OF h1 h2 h3 h4 h5 h6] h1 h2 h3 h4 r by (simp add: l n e)
qed

section \<open>The HTTP push client: claims\<close>










text \<open>
  C10. Two calls of \<open>NewHTTPClient\<close> that differ only in the user name and the password
  return the same result: the connection stores empty credentials, so the request a push
  builds on it carries no basic authentication, whatever the buffer and the stored
  response are by then.
\<close>

theorem C10_credentials_discarded:
  "NewHTTPClient ao nwc u user1 pass1 tr opts = NewHTTPClient ao nwc u user2 pass2 tr opts
   \<and> (\<forall>hc b r. NewHTTPClient ao nwc u user1 pass1 tr opts = Inr hc \<longrightarrow>
         username (hc_conn hc) = [] \<and> password (hc_conn hc) = []
         \<and> requ_BasicAuth (Push_request ((hc_conn hc)\<lparr>buf := b, conn_resp := r\<rparr>)) = None)"
  by (auto simp add: NewHTTPClient_def Push_request_def Let_def split: sum.splits)

theorem C10_credentials_discarded_witness:
  "NewHTTPClient sample_applyOptions sample_NewWithConn ''http://localhost:5044''
      ''elastic'' ''changeme'' () [] =
   Inr \<lparr>hc_conn = \<lparr>http_Transport = (), http_Timeout = 30, url = ''http://localhost:5044'',
                   username = [], password = [], buf = [], conn_resp = None, canceler = 0\<rparr>,
        hc_client = 0\<rparr>
   \<and> NewHTTPClient sample_applyOptions sample_NewWithConn ''http://localhost:5044''
      ''elastic'' ''changeme'' () [] =
     NewHTTPClient sample_applyOptions sample_NewWithConn ''http://localhost:5044'' [] [] () []
   \<and> requ_BasicAuth (Push_request (hc_conn
        \<lparr>hc_conn = \<lparr>http_Transport = (), http_Timeout = 30, url = ''http://localhost:5044'',
                   username = [], password = [], buf = [], conn_resp = None, canceler = 0\<rparr>,
         hc_client = 0::nat\<rparr>)) = None"
  using C10_credentials_discarded
    [of sample_applyOptions sample_NewWithConn "''http://localhost:5044''" "''elastic''"
        "''changeme''" "()" "[]" "[]" "[]"]
  by (simp add: NewHTTPClient_def sample_applyOptions_def sample_NewWithConn_def
      Push_request_def)

end
